theory Spec2Isabelle
  imports Main
begin

section \<open>JavaScript strings\<close>

text \<open>
  A JavaScript string is a sequence of UTF-16 code units, and \<open>length\<close>, indexing and
  \<open>===\<close> all work on code units. A string is therefore modelled as the list of its code
  units, each a natural number; \<open>js\<close> turns an ASCII literal into that form.
\<close>

type_synonym jsstring = "nat list"

definition js :: "string \<Rightarrow> jsstring" where
  "js s = map of_char s"

text \<open>
  \<open>String.prototype.toUpperCase\<close> reads the string as code points (a high surrogate
  followed by a low surrogate is one code point, any other code unit is a code point
  of its own), replaces every code point by its upper-case form under the Unicode
  default case conversion, which does not look at the neighbours, and writes the result
  back as code units.
\<close>

fun codePoints :: "jsstring \<Rightarrow> nat list" where
  "codePoints [] = []"
| "codePoints [u] = [u]"
| "codePoints (h # l # rest) =
     (if 55296 \<le> h \<and> h \<le> 56319 \<and> 56320 \<le> l \<and> l \<le> 57343
      then (65536 + (h - 55296) * 1024 + (l - 56320)) # codePoints rest
      else h # codePoints (l # rest))"

definition codeUnits :: "nat \<Rightarrow> jsstring" where
  "codeUnits p =
     (if p < 65536 then [p]
      else [55296 + (p - 65536) div 1024, 56320 + (p - 65536) mod 1024])"

text \<open>
  The upper-case forms of the code points below 256 (ASCII and Latin-1) are written
  out: the letters \<open>a\<close>..\<open>z\<close> and U+00E0..U+00FE (without the division sign U+00F7)
  move down by 32, the micro sign U+00B5 becomes U+039C, \<open>y\<close> with diaeresis U+00FF
  becomes U+0178, and the sharp s U+00DF becomes \<open>SS\<close>. The Unicode table for the code
  points from 256 upwards is not part of the repository; it is the parameter
  \<open>tbl\<close>, which gives the first code point of the upper-case form and the rest.
\<close>

type_synonym caseTable = "nat \<Rightarrow> nat \<times> nat list"

definition toUpperCase_point :: "caseTable \<Rightarrow> nat \<Rightarrow> nat list" where
  "toUpperCase_point tbl p =
     (if 97 \<le> p \<and> p \<le> 122 then [p - 32]
      else if p = 181 then [924]
      else if p = 223 then [83, 83]
      else if (224 \<le> p \<and> p \<le> 246) \<or> (248 \<le> p \<and> p \<le> 254) then [p - 32]
      else if p = 255 then [376]
      else if p < 256 then [p]
      else (case tbl p of (q, qs) \<Rightarrow> q # qs))"

definition toUpperCase :: "caseTable \<Rightarrow> jsstring \<Rightarrow> jsstring" where
  "toUpperCase tbl s =
     concat (map codeUnits (concat (map (toUpperCase_point tbl) (codePoints s))))"

text \<open>
  \<open>trim\<close> (the schema option \<open>trim: true\<close>) removes the white space and line
  terminator code units of ECMAScript from both ends.
\<close>

definition isWhiteSpace :: "nat \<Rightarrow> bool" where
  "isWhiteSpace u =
     (u \<in> {9, 10, 11, 12, 13, 32, 160, 5760, 8232, 8233, 8239, 8287, 12288, 65279}
      \<or> (8192 \<le> u \<and> u \<le> 8202))"

definition trim :: "jsstring \<Rightarrow> jsstring" where
  "trim s = dropWhile isWhiteSpace (rev (dropWhile isWhiteSpace (rev s)))"

definition charAt :: "jsstring \<Rightarrow> nat \<Rightarrow> nat option" where
  "charAt s i = (if i < length s then Some (s ! i) else None)"

definition includes_str :: "jsstring \<Rightarrow> nat option \<Rightarrow> bool" where
  "includes_str alphabet x = (case x of None \<Rightarrow> False | Some c \<Rightarrow> c \<in> set alphabet)"

section \<open>Errors\<close>

text \<open>
  Every \<open>throw new Error(msg)\<close> of the code is one constructor, named after its message:
  \<open>PrefixTooLong\<close> is \<open>'Prefix too long, must leave at least 3 characters'\<close>,
  \<open>MaxAttempts\<close> is \<open>'Failed to generate unique code after maximum attempts'\<close>,
  \<open>InvalidShareCode\<close> is \<open>'Invalid share code'\<close>, \<open>ItemNotFound\<close> is
  \<open>'Item not found'\<close>. \<open>ValidationError\<close> is the rejection of \<open>save()\<close> when a
  \<open>required\<close> path of the schema is empty or a value could not be cast, and \<open>StoreFailure\<close> is a rejection raised
  by the document store itself (a lost connection, a duplicate \<open>_id\<close>).
\<close>

datatype error =
  PrefixTooLong | MaxAttempts | InvalidShareCode | ItemNotFound | ValidationError | StoreFailure

section \<open>The share code generator (utils, share code generator)\<close>

definition consonants :: jsstring where
  "consonants = js ''BCDFGHJKLMNPQRSTVWXYZ''"

definition vowels :: jsstring where
  "vowels = js ''AEIOU''"

text \<open>
  \<open>Math.random\<close> is the only source of randomness. It is modelled as an infinite
  sequence of draws that the code consumes from the front; a draw \<open>d\<close> stands for the
  index \<open>Math.floor(Math.random() * n) = d mod n\<close>, so every index below \<open>n\<close> and
  no other can come out.
\<close>

type_synonym rng = "nat \<Rightarrow> nat"

definition advance :: "rng \<Rightarrow> rng" where
  "advance r = (\<lambda>i. r (Suc i))"

definition pick :: "jsstring \<Rightarrow> rng \<Rightarrow> nat \<times> rng" where
  "pick alphabet r = (alphabet ! (r 0 mod length alphabet), advance r)"

definition generateCode :: "rng \<Rightarrow> jsstring \<times> rng" where
  "generateCode r =
     (case pick consonants r of (c1, r1) \<Rightarrow>
      case pick vowels r1 of (v1, r2) \<Rightarrow>
      case pick consonants r2 of (c2, r3) \<Rightarrow>
      case pick vowels r3 of (v2, r4) \<Rightarrow>
      case pick consonants r4 of (c3, r5) \<Rightarrow>
        ([c1, v1, c2, v2, c3], r5))"

definition maxAttempts :: nat where
  "maxAttempts = 100"

text \<open>
  The loop of \<open>generateUniqueCode\<close>; the state is the loop's variables \<open>code\<close>
  (undefined before the first round), \<open>isUnique\<close> and \<open>attempts\<close>, and the random
  source.
\<close>

function generateUniqueCode_loop ::
  "(jsstring \<Rightarrow> bool) \<Rightarrow> jsstring option \<Rightarrow> bool \<Rightarrow> nat \<Rightarrow> rng
     \<Rightarrow> jsstring option \<times> bool \<times> nat \<times> rng" where
  "generateUniqueCode_loop checkExistence code isUnique attempts r =
     (if \<not> isUnique \<and> attempts < maxAttempts then
        (case generateCode r of (c, r') \<Rightarrow>
           generateUniqueCode_loop checkExistence (Some c)
             (if \<not> checkExistence c then True else isUnique) (attempts + 1) r')
      else (code, isUnique, attempts, r))"
  by pat_completeness auto
termination
  by (relation "measure (\<lambda>(chk, code, isUnique, attempts, r). maxAttempts - attempts)") auto

declare generateUniqueCode_loop.simps [simp del]

text \<open>The result carries the number of attempts made, to make the bound observable.\<close>

definition generateUniqueCode ::
  "(jsstring \<Rightarrow> bool) \<Rightarrow> rng \<Rightarrow> (error + jsstring option) \<times> nat \<times> rng" where
  "generateUniqueCode checkExistence r =
     (case generateUniqueCode_loop checkExistence None False 0 r of
        (code, isUnique, attempts, r') \<Rightarrow>
          if \<not> isUnique then (Inl MaxAttempts, attempts, r')
          else (Inr code, attempts, r'))"

definition isValidCode :: "caseTable \<Rightarrow> jsstring \<Rightarrow> bool" where
  "isValidCode tbl code =
     (if code = [] \<or> length code \<noteq> 5 then False
      else
        (let upperCode = toUpperCase tbl code in
           includes_str consonants (charAt upperCode 0) \<and>
           includes_str vowels (charAt upperCode 1) \<and>
           includes_str consonants (charAt upperCode 2) \<and>
           includes_str vowels (charAt upperCode 3) \<and>
           includes_str consonants (charAt upperCode 4)))"

text \<open>
  The filling loop of \<open>generateWithPrefix\<close>: \<open>i\<close> and \<open>remainingLength\<close> are
  JavaScript numbers (the latter is negative for a prefix longer than 5).
\<close>

function generateWithPrefix_loop :: "int \<Rightarrow> int \<Rightarrow> jsstring \<Rightarrow> rng \<Rightarrow> jsstring \<times> rng" where
  "generateWithPrefix_loop i remainingLength code r =
     (if i < remainingLength then
        (if i mod 2 = 0 then
           (case pick consonants r of (c, r') \<Rightarrow>
              generateWithPrefix_loop (i + 1) remainingLength (code @ [c]) r')
         else
           (case pick vowels r of (c, r') \<Rightarrow>
              generateWithPrefix_loop (i + 1) remainingLength (code @ [c]) r'))
      else (code, r))"
  by pat_completeness auto
termination
  by (relation "measure (\<lambda>(i, remainingLength, code, r). nat (remainingLength - i))") auto

declare generateWithPrefix_loop.simps [simp del]

definition generateWithPrefix ::
  "caseTable \<Rightarrow> rng \<Rightarrow> jsstring \<Rightarrow> error + (jsstring \<times> rng)" where
  "generateWithPrefix tbl r prefix =
     (let remainingLength = 5 - int (length prefix) in
        if remainingLength < 3 then Inl PrefixTooLong
        else Inr (generateWithPrefix_loop 0 remainingLength (toUpperCase tbl prefix) r))"

section \<open>The User model: share codes and access grants\<close>

text \<open>
  Of the User schema the fields that the sharing methods read or write are kept:
  \<open>_id\<close> (here \<open>uid\<close>; ObjectIds are natural numbers and \<open>toString()\<close> equality is
  equality of ids), \<open>shareCode\<close> (absent, or a string), \<open>sharedWith\<close> and
  \<open>accessingViaCode\<close>. The fields of an access record are written \<open>acc_code\<close> and
  \<open>acc_ownerId\<close> for the schema's \<open>code\<close> and \<open>ownerId\<close>. Time stamps that the
  schema fills in by default (\<open>sharedAt\<close>, \<open>accessedAt\<close>, \<open>updatedAt\<close>) are left
  out: no method below reads them.
\<close>

datatype accessLevel = View | Edit

record shareGrant =
  userId :: nat
  accessLevel :: accessLevel

record accessRecord =
  acc_code :: jsstring
  acc_ownerId :: nat

record user =
  uid :: nat
  shareCode :: "jsstring option"
  sharedWith :: "shareGrant list"
  accessingViaCode :: "accessRecord list"

text \<open>
  The users collection is the list of its documents in natural order.
  \<open>findOne({shareCode: c})\<close> returns the first document whose share code is \<open>c\<close>.
  \<open>save()\<close> writes the paths of the in-memory document that were modified since it was
  loaded or last saved to the stored document with the same \<open>_id\<close>. The methods are
  taken on a document that has no unsaved change when the method is called, so at
  each \<open>save()\<close> the modified path is the one that the method has just assigned; there
  is one function per such path.
\<close>

definition findOne_shareCode :: "user list \<Rightarrow> jsstring \<Rightarrow> user option" where
  "findOne_shareCode db c = find (\<lambda>u. shareCode u = Some c) db"

definition findById_user :: "user list \<Rightarrow> nat \<Rightarrow> user option" where
  "findById_user db i = find (\<lambda>u. uid u = i) db"

definition save_shareCode :: "user list \<Rightarrow> user \<Rightarrow> user list" where
  "save_shareCode db doc =
     map (\<lambda>d. if uid d = uid doc then d\<lparr>shareCode := shareCode doc\<rparr> else d) db"

definition save_sharedWith :: "user list \<Rightarrow> user \<Rightarrow> user list" where
  "save_sharedWith db doc =
     map (\<lambda>d. if uid d = uid doc then d\<lparr>sharedWith := sharedWith doc\<rparr> else d) db"

definition save_accessingViaCode :: "user list \<Rightarrow> user \<Rightarrow> user list" where
  "save_accessingViaCode db doc =
     map (\<lambda>d. if uid d = uid doc then d\<lparr>accessingViaCode := accessingViaCode doc\<rparr> else d) db"

text \<open>\<open>!this.shareCode\<close>: an absent share code and the empty string are falsy.\<close>

definition falsy_str :: "jsstring option \<Rightarrow> bool" where
  "falsy_str s = (s = None \<or> s = Some [])"

text \<open>
  The loop of \<open>User.generateShareCode\<close>. Its body builds the candidate with the same
  five draws as \<open>generateCode\<close> (the method repeats that text) and asks the store for a
  user holding it; \<open>findOne\<close> is that query. The loop has no bound, so it is a partial
  function: \<open>None\<close> is the value of a run that never leaves the loop.
\<close>

partial_function (option) generateShareCode_loop ::
  "(jsstring \<Rightarrow> user option) \<Rightarrow> rng \<Rightarrow> (jsstring \<times> rng) option" where
  "generateShareCode_loop findOne r =
     (case generateCode r of (c, r') \<Rightarrow>
        (case findOne c of
           None \<Rightarrow> Some (c, r')
         | Some existing \<Rightarrow> generateShareCode_loop findOne r'))"

text \<open>
  \<open>this.shareCode = code\<close> goes through the schema's \<open>uppercase\<close> setter; the method
  returns the local \<open>code\<close>.
\<close>

definition generateShareCode ::
  "caseTable \<Rightarrow> (jsstring \<Rightarrow> user option) \<Rightarrow> rng \<Rightarrow> user
     \<Rightarrow> (jsstring \<times> user \<times> rng) option" where
  "generateShareCode tbl findOne r self =
     (case generateShareCode_loop findOne r of
        None \<Rightarrow> None
      | Some (c, r') \<Rightarrow> Some (c, self\<lparr>shareCode := Some (toUpperCase tbl c)\<rparr>, r'))"

text \<open>
  \<open>shareWith(targetUserId, accessLevel)\<close> on the document \<open>self\<close>; the result is the
  returned \<open>this.shareCode\<close>, the document, the collection and the random source.
\<close>

definition shareWith ::
  "caseTable \<Rightarrow> user list \<Rightarrow> rng \<Rightarrow> user \<Rightarrow> nat \<Rightarrow> accessLevel
     \<Rightarrow> (jsstring option \<times> user \<times> user list \<times> rng) option" where
  "shareWith tbl db r self targetUserId level =
     (case (if falsy_str (shareCode self) then
              (case generateShareCode tbl (findOne_shareCode db) r self of
                 None \<Rightarrow> None
               | Some (c, self', r') \<Rightarrow> Some (self', save_shareCode db self', r'))
            else Some (self, db, r)) of
        None \<Rightarrow> None
      | Some (self1, db1, r1) \<Rightarrow>
          (let alreadyShared = list_ex (\<lambda>share. userId share = targetUserId) (sharedWith self1) in
             if \<not> alreadyShared then
               (let self2 = self1\<lparr>sharedWith := sharedWith self1 @
                              [\<lparr>userId = targetUserId, accessLevel = level\<rparr>]\<rparr>
                in Some (shareCode self2, self2, save_sharedWith db1 self2, r1))
             else Some (shareCode self1, self1, db1, r1)))"

text \<open>
  \<open>accessViaCode(code)\<close> on the requester's document \<open>self\<close>. The result is the thrown
  error or the returned owner document, then the requester's document, the collection
  and the random source as the call leaves them. \<open>owner.shareWith(this._id)\<close> takes the
  default access level \<open>'view'\<close>.
\<close>

definition accessViaCode ::
  "caseTable \<Rightarrow> user list \<Rightarrow> rng \<Rightarrow> user \<Rightarrow> jsstring
     \<Rightarrow> ((error + user) \<times> user \<times> user list \<times> rng) option" where
  "accessViaCode tbl db r self presented =
     (case findOne_shareCode db (toUpperCase tbl presented) of
        None \<Rightarrow> Some (Inl InvalidShareCode, self, db, r)
      | Some owner \<Rightarrow>
          (let alreadyAccessing =
                 list_ex (\<lambda>access. acc_code access = toUpperCase tbl presented) (accessingViaCode self);
               self1 = (if \<not> alreadyAccessing then
                          self\<lparr>accessingViaCode := accessingViaCode self @
                            [\<lparr>acc_code = toUpperCase tbl presented, acc_ownerId = uid owner\<rparr>]\<rparr>
                        else self);
               db1 = (if \<not> alreadyAccessing then save_accessingViaCode db self1 else db)
           in (case shareWith tbl db1 r owner (uid self) View of
                 None \<Rightarrow> None
               | Some (sc, owner', db2, r') \<Rightarrow> Some (Inr owner', self1, db2, r'))))"

section \<open>The List model: items and alarms\<close>

text \<open>
  A valid date is its time value, the milliseconds since the epoch. Of an item the
  fields that \<open>addItem\<close> and \<open>updateItem\<close> read or write are kept (\<open>_id\<close> is
  \<open>item_id\<close>); the other payload fields are copied as they are and take no part.
\<close>

datatype status = Pending | InProgress | Completed | Cancelled

datatype alarmType = Notification | Email | Sms

record alarm =
  triggerTime :: int
  alarm_type :: alarmType
  message :: "jsstring option"
  isTriggered :: bool
  triggeredAt :: "int option"

record item =
  item_id :: nat
  title :: jsstring
  status :: status
  dueDate :: "int option"
  completedAt :: "int option"
  alarms :: "alarm list"
  createdAt :: int
  updatedAt :: int




text \<open>
  The payload of \<open>updateItem\<close>: \<open>None\<close> is a key that is not there, so that
  \<open>Object.assign\<close> leaves the item's field alone; for the optional dates
  \<open>Some None\<close> is a key holding \<open>null\<close>.
\<close>

record updateData =
  u_title :: "jsstring option"
  u_status :: "status option"
  u_dueDate :: "int option option"
  u_completedAt :: "int option option"
  u_alarms :: "alarm list option"

datatype listType = Task | Meeting | Transaction | Booking | Custom

record listDoc =
  l_id :: nat
  l_owner :: nat
  listType :: listType
  l_name :: jsstring
  l_description :: jsstring
  color :: jsstring
  icon :: jsstring
  isDefault :: bool
  contactOwner :: "nat option"
  items :: "item list"
  defaultAlarmTime :: "int option"


text \<open>
  What the date arithmetic takes from its environment: the offset of local time from
  UTC at a UTC instant (\<open>utcOffset\<close>) and at a local time value (\<open>localOffset\<close>), in
  milliseconds; the time value that \<open>new Date(string)\<close> parses from a string and the
  one that the schema's cast to \<open>Date\<close> reads from a non-empty string (none for an
  invalid date); and the result of \<open>setMinutes\<close> for a minute count so large that
  JavaScript's numbers no longer compute it exactly (\<open>beyondExact\<close>).
\<close>

record dateEnv =
  utcOffset :: "int \<Rightarrow> int"
  localOffset :: "int \<Rightarrow> int"
  parseDate :: "jsstring \<Rightarrow> int option"
  castDateString :: "jsstring \<Rightarrow> int option"
  beyondExact :: "int \<Rightarrow> int \<Rightarrow> int option"




definition getMinutes :: "dateEnv \<Rightarrow> int \<Rightarrow> int" where
  "getMinutes env t = ((t + utcOffset env t) div 60000) mod 60"









definition assign :: "item \<Rightarrow> updateData \<Rightarrow> item" where
  "assign it u =
     it\<lparr>title := (case u_title u of None \<Rightarrow> title it | Some t \<Rightarrow> trim t),
        status := (case u_status u of None \<Rightarrow> status it | Some s \<Rightarrow> s),
        dueDate := (case u_dueDate u of None \<Rightarrow> dueDate it | Some d \<Rightarrow> d),
        completedAt := (case u_completedAt u of None \<Rightarrow> completedAt it | Some d \<Rightarrow> d),
        alarms := (case u_alarms u of None \<Rightarrow> alarms it | Some as \<Rightarrow> as)\<rparr>"

text \<open>A mutation of the first element that satisfies \<open>p\<close>, as through a reference to it.\<close>

fun updateFirst :: "('a \<Rightarrow> bool) \<Rightarrow> ('a \<Rightarrow> 'a) \<Rightarrow> 'a list \<Rightarrow> 'a list" where
  "updateFirst p f [] = []"
| "updateFirst p f (x # xs) = (if p x then f x # xs else x # updateFirst p f xs)"

text \<open>
  \<open>updateItem(itemId, updateData)\<close>; both reads of the clock give \<open>now\<close>.
\<close>

definition updateItem :: "int \<Rightarrow> listDoc \<Rightarrow> nat \<Rightarrow> updateData \<Rightarrow> error + (item \<times> listDoc)" where
  "updateItem now self itemId updateData =
     (case find (\<lambda>i. item_id i = itemId) (items self) of
        None \<Rightarrow> Inl ItemNotFound
      | Some found \<Rightarrow>
          (let item1 = assign found updateData;
               item2 = item1\<lparr>updatedAt := now\<rparr>;
               item3 = (if u_status updateData = Some Completed \<and> completedAt item2 = None
                        then item2\<lparr>completedAt := Some now\<rparr> else item2)
           in if title item3 = [] then Inl ValidationError
              else Inr (item3,
                self\<lparr>items := updateFirst (\<lambda>i. item_id i = itemId) (\<lambda>_. item3) (items self)\<rparr>)))"

section \<open>The Contact model: default lists\<close>

text \<open>
  Of a contact the fields that the post-save hook reads or writes are kept; the three
  references \<open>defaultLists.tasks\<close>, \<open>defaultLists.meetings\<close> and
  \<open>defaultLists.transactions\<close> are \<open>dl_tasks\<close>, \<open>dl_meetings\<close> and
  \<open>dl_transactions\<close>. The store holds the two collections and what was written
  with \<open>console.error\<close>.
\<close>

record contact =
  c_id :: nat
  c_owner :: nat
  c_name :: jsstring
  dl_tasks :: "nat option"
  dl_meetings :: "nat option"
  dl_transactions :: "nat option"

record store =
  lists :: "listDoc list"
  contacts :: "contact list"
  console :: "error list"

definition findById_list :: "store \<Rightarrow> nat \<Rightarrow> listDoc option" where
  "findById_list st i = find (\<lambda>l. l_id l = i) (lists st)"

definition findById_contact :: "store \<Rightarrow> nat \<Rightarrow> contact option" where
  "findById_contact st i = find (\<lambda>c. c_id c = i) (contacts st)"

text \<open>
  The three documents that the hook builds with \<open>new List({...})\<close>: the schema trims
  the name and the description and fills in an empty item array and the default alarm
  time of 30 minutes. The icons are the code units of the literals in the source file.
\<close>

definition tasksList :: "nat \<Rightarrow> contact \<Rightarrow> listDoc" where
  "tasksList newId doc =
     \<lparr>l_id = newId, l_owner = c_owner doc, listType = Task,
      l_name = trim (c_name doc @ js '' - Tasks''),
      l_description = trim (js ''Default tasks list for '' @ c_name doc),
      color = js ''#3B82F6'', icon = [226, 339, 8220],
      isDefault = True, contactOwner = Some (c_id doc),
      items = [], defaultAlarmTime = Some 30\<rparr>"

definition meetingsList :: "nat \<Rightarrow> contact \<Rightarrow> listDoc" where
  "meetingsList newId doc =
     \<lparr>l_id = newId, l_owner = c_owner doc, listType = Meeting,
      l_name = trim (c_name doc @ js '' - Meetings''),
      l_description = trim (js ''Default meetings list for '' @ c_name doc),
      color = js ''#10B981'', icon = [240, 376, 8220, 8230],
      isDefault = True, contactOwner = Some (c_id doc),
      items = [], defaultAlarmTime = Some 30\<rparr>"

definition transactionsList :: "nat \<Rightarrow> contact \<Rightarrow> listDoc" where
  "transactionsList newId doc =
     \<lparr>l_id = newId, l_owner = c_owner doc, listType = Transaction,
      l_name = trim (c_name doc @ js '' - Transactions''),
      l_description = trim (js ''Default transactions list for '' @ c_name doc),
      color = js ''#F59E0B'', icon = [240, 376, 8217, 176],
      isDefault = True, contactOwner = Some (c_id doc),
      items = [], defaultAlarmTime = Some 30\<rparr>"

text \<open>
  The writes to the store. Each takes a flag saying whether the store rejects this
  write; an insert is also rejected when the \<open>_id\<close> is already in the collection.
\<close>

definition save_list :: "bool \<Rightarrow> listDoc \<Rightarrow> store \<Rightarrow> error + store" where
  "save_list fault l st =
     (if fault \<or> l_id l \<in> set (map l_id (lists st)) then Inl StoreFailure
      else Inr (st\<lparr>lists := lists st @ [l]\<rparr>))"

definition updateOne_defaultLists ::
  "bool \<Rightarrow> nat \<Rightarrow> nat \<Rightarrow> nat \<Rightarrow> nat \<Rightarrow> store \<Rightarrow> error + store" where
  "updateOne_defaultLists fault cid t m x st =
     (if fault then Inl StoreFailure
      else Inr (st\<lparr>contacts := updateFirst (\<lambda>c. c_id c = cid)
                  (\<lambda>c. c\<lparr>dl_tasks := Some t, dl_meetings := Some m, dl_transactions := Some x\<rparr>)
                  (contacts st)\<rparr>))"

text \<open>
  The \<open>try\<close> block of the post-save hook. \<open>fault k\<close> says whether the store rejects
  the hook's write number \<open>k\<close> (the three list saves and the \<open>updateOne\<close>), and
  \<open>ids\<close> are the ObjectIds of the three new lists. An exception leaves the block at
  once, with the store as the earlier writes left it.
\<close>

definition createDefaultLists ::
  "(nat \<Rightarrow> bool) \<Rightarrow> nat \<times> nat \<times> nat \<Rightarrow> contact \<Rightarrow> store \<Rightarrow> (error + contact) \<times> store" where
  "createDefaultLists fault ids doc st =
     (case ids of (t, m, x) \<Rightarrow>
       (case save_list (fault 0) (tasksList t doc) st of
          Inl e \<Rightarrow> (Inl e, st)
        | Inr st1 \<Rightarrow>
           (case save_list (fault 1) (meetingsList m doc) st1 of
              Inl e \<Rightarrow> (Inl e, st1)
            | Inr st2 \<Rightarrow>
               (case save_list (fault 2) (transactionsList x doc) st2 of
                  Inl e \<Rightarrow> (Inl e, st2)
                | Inr st3 \<Rightarrow>
                   (case updateOne_defaultLists (fault 3) (c_id doc) t m x st3 of
                      Inl e \<Rightarrow> (Inl e, st3)
                    | Inr st4 \<Rightarrow>
                        (Inr (doc\<lparr>dl_tasks := Some t, dl_meetings := Some m,
                                  dl_transactions := Some x\<rparr>), st4))))))"

text \<open>
  The post-save hook. \<open>isNew\<close> is the value of \<open>this.isNew\<close> that the hook reads;
  under \<open>save()\<close> that value is always \<open>false\<close> (see \<open>createContact\<close> below).
  The first component of the result is what the hook hands to \<open>next\<close>: the hook ends
  with \<open>next()\<close> on every path, and the \<open>catch\<close> writes the error to the console.
\<close>

definition postSave ::
  "bool \<Rightarrow> (nat \<Rightarrow> bool) \<Rightarrow> nat \<times> nat \<times> nat \<Rightarrow> contact \<Rightarrow> store
     \<Rightarrow> error option \<times> contact \<times> store" where
  "postSave isNew fault ids doc st =
     (if isNew \<or> (dl_tasks doc = None \<and> dl_meetings doc = None \<and> dl_transactions doc = None)
      then
        (case createDefaultLists fault ids doc st of
           (Inl e, st') \<Rightarrow> (None, doc, st'\<lparr>console := console st' @ [e]\<rparr>)
         | (Inr doc', st') \<Rightarrow> (None, doc', st'))
      else (None, doc, st))"

text \<open>
  Creating a contact, as the route does with \<open>new Contact({...})\<close> and
  \<open>contact.save()\<close>: the document is validated (its required name) and inserted, then
  the post-save hook runs; \<open>save()\<close> rejects if the insert does or if the hook hands an
  error to \<open>next\<close>. When the post-save hooks run the document has been written and
  is no longer new, so the hook reads \<open>this.isNew\<close> as \<open>false\<close>.
\<close>

definition insert_contact :: "bool \<Rightarrow> contact \<Rightarrow> store \<Rightarrow> error + store" where
  "insert_contact fault doc st =
     (if c_name doc = [] then Inl ValidationError
      else if fault \<or> c_id doc \<in> set (map c_id (contacts st)) then Inl StoreFailure
      else Inr (st\<lparr>contacts := contacts st @ [doc]\<rparr>))"

definition createContact ::
  "bool \<Rightarrow> (nat \<Rightarrow> bool) \<Rightarrow> nat \<times> nat \<times> nat \<Rightarrow> contact \<Rightarrow> store
     \<Rightarrow> (error + contact) \<times> store" where
  "createContact insertFault fault ids doc st =
     (case insert_contact insertFault doc st of
        Inl e \<Rightarrow> (Inl e, st)
      | Inr st1 \<Rightarrow>
          (case postSave False fault ids doc st1 of
             (Some e, doc', st2) \<Rightarrow> (Inl e, st2)
           | (None, doc', st2) \<Rightarrow> (Inr doc', st2)))"

section \<open>Sample data\<close>

text \<open>
  A random source whose every draw is \<open>0\<close>, a case table that leaves the code points
  from 256 up as they are, a time zone that is UTC and one whose clocks go forward by
  an hour at the epoch, and a few concrete documents, payloads and stores, for the
  evaluations below.
\<close>

definition zero_draws :: rng where
  "zero_draws = (\<lambda>_. 0)"

definition plain_table :: caseTable where
  "plain_table = (\<lambda>p. (p, []))"





definition sample_item :: item where
  "sample_item = \<lparr>item_id = 1, title = js ''Call'', status = Completed, dueDate = None,
     completedAt = Some 1000, alarms = [], createdAt = 900, updatedAt = 1000\<rparr>"

definition sample_list :: listDoc where
  "sample_list = \<lparr>l_id = 10, l_owner = 1, listType = Task, l_name = js ''Bob - Tasks'',
     l_description = [], color = js ''#3B82F6'', icon = [], isDefault = True,
     contactOwner = Some 5, items = [sample_item], defaultAlarmTime = Some 30\<rparr>"






definition complete_update :: updateData where
  "complete_update = \<lparr>u_title = None, u_status = Some Completed, u_dueDate = None,
     u_completedAt = None, u_alarms = None\<rparr>"

definition new_contact :: contact where
  "new_contact = \<lparr>c_id = 5, c_owner = 1, c_name = js ''Bob'',
     dl_tasks = None, dl_meetings = None, dl_transactions = None\<rparr>"

definition partial_contact :: contact where
  "partial_contact = \<lparr>c_id = 5, c_owner = 1, c_name = js ''Bob'',
     dl_tasks = Some 10, dl_meetings = None, dl_transactions = None\<rparr>"

definition new_store :: store where
  "new_store = \<lparr>lists = [], contacts = [new_contact], console = []\<rparr>"

definition partial_store :: store where
  "partial_store = \<lparr>lists = [sample_list], contacts = [partial_contact], console = []\<rparr>"

definition empty_store :: store where
  "empty_store = \<lparr>lists = [], contacts = [], console = []\<rparr>"

definition no_fault :: "nat \<Rightarrow> bool" where
  "no_fault = (\<lambda>_. False)"

definition fault_at :: "nat \<Rightarrow> nat \<Rightarrow> bool" where
  "fault_at k = (\<lambda>i. i = k)"

definition owner_account :: user where
  "owner_account = \<lparr>uid = 1, shareCode = Some (js ''BAFEK''), sharedWith = [],
     accessingViaCode = []\<rparr>"

definition owner_with_edit_grant :: user where
  "owner_with_edit_grant = \<lparr>uid = 1, shareCode = Some (js ''BAFEK''),
     sharedWith = [\<lparr>userId = 2, accessLevel = Edit\<rparr>], accessingViaCode = []\<rparr>"

definition requester_account :: user where
  "requester_account = \<lparr>uid = 2, shareCode = None, sharedWith = [], accessingViaCode = []\<rparr>"

definition requester_redeemed :: user where
  "requester_redeemed = \<lparr>uid = 2, shareCode = None, sharedWith = [],
     accessingViaCode = [\<lparr>acc_code = js ''BAFEK'', acc_ownerId = 1\<rparr>]\<rparr>"

section \<open>Properties of the share code generator\<close>

lemma consonants_units:
  "consonants = [66, 67, 68, 70, 71, 72, 74, 75, 76, 77, 78, 80, 81, 82, 83, 84, 86, 87, 88, 89, 90]"
  by (simp add: consonants_def js_def)

lemma vowels_units: "vowels = [65, 69, 73, 79, 85]"
  by (simp add: vowels_def js_def)

lemma pick_member: "alphabet \<noteq> [] \<Longrightarrow> pick alphabet r = (c, r') \<Longrightarrow> c \<in> set alphabet"
  by (auto simp: pick_def)

lemma consonants_nonempty: "consonants \<noteq> []"
  by (simp add: consonants_units)

lemma vowels_nonempty: "vowels \<noteq> []"
  by (simp add: vowels_units)

lemma generateWithPrefix_loop_shape:
  "\<exists>fill r'. generateWithPrefix_loop i n code r = (code @ fill, r')
       \<and> int (length fill) = max 0 (n - i)
       \<and> (\<forall>j<length fill. fill ! j \<in> set (if (i + int j) mod 2 = 0 then consonants else vowels))"
proof (induction i n code r rule: generateWithPrefix_loop.induct)
  case (1 i n code r)
  show ?case
  proof (cases "i < n")
    case False
    then show ?thesis by (subst generateWithPrefix_loop.simps) simp
  next
    case lt: True
    show ?thesis
    proof (cases "i mod 2 = 0")
      case ev: True
      obtain c r1 where p: "pick consonants r = (c, r1)" by (cases "pick consonants r")
      from "1.IH"(1)[OF lt ev p[symmetric]] obtain fill r' where
        f: "generateWithPrefix_loop (i + 1) n (code @ [c]) r1 = ((code @ [c]) @ fill, r')"
          "int (length fill) = max 0 (n - (i + 1))"
          "\<forall>j<length fill. fill ! j \<in> set (if (i + 1 + int j) mod 2 = 0 then consonants else vowels)"
        by blast
      have c: "c \<in> set consonants" using pick_member[OF consonants_nonempty p] .
      have all: "\<forall>j<length (c # fill). (c # fill) ! j \<in> set (if (i + int j) mod 2 = 0 then consonants else vowels)"
      proof (intro allI impI)
        fix j assume "j < length (c # fill)"
        then show "(c # fill) ! j \<in> set (if (i + int j) mod 2 = 0 then consonants else vowels)"
        proof (cases j)
          case 0
          then show ?thesis using c ev by simp
        next
          case (Suc k)
          have e: "i + int (Suc k) = i + 1 + int k" by simp
          from Suc \<open>j < length (c # fill)\<close> have "k < length fill" by simp
          with f(3) have "fill ! k \<in> set (if (i + 1 + int k) mod 2 = 0 then consonants else vowels)"
            by blast
          then show ?thesis unfolding Suc e by simp
        qed
      qed
      have "generateWithPrefix_loop i n code r = (code @ (c # fill), r')"
        using lt ev p f(1) by (subst generateWithPrefix_loop.simps) simp
      moreover have "int (length (c # fill)) = max 0 (n - i)" using f(2) lt by simp
      ultimately show ?thesis using all by blast
    next
      case od: False
      obtain c r1 where p: "pick vowels r = (c, r1)" by (cases "pick vowels r")
      from "1.IH"(2)[OF lt od p[symmetric]] obtain fill r' where
        f: "generateWithPrefix_loop (i + 1) n (code @ [c]) r1 = ((code @ [c]) @ fill, r')"
          "int (length fill) = max 0 (n - (i + 1))"
          "\<forall>j<length fill. fill ! j \<in> set (if (i + 1 + int j) mod 2 = 0 then consonants else vowels)"
        by blast
      have c: "c \<in> set vowels" using pick_member[OF vowels_nonempty p] .
      have all: "\<forall>j<length (c # fill). (c # fill) ! j \<in> set (if (i + int j) mod 2 = 0 then consonants else vowels)"
      proof (intro allI impI)
        fix j assume "j < length (c # fill)"
        then show "(c # fill) ! j \<in> set (if (i + int j) mod 2 = 0 then consonants else vowels)"
        proof (cases j)
          case 0
          then show ?thesis using c od by simp
        next
          case (Suc k)
          have e: "i + int (Suc k) = i + 1 + int k" by simp
          from Suc \<open>j < length (c # fill)\<close> have "k < length fill" by simp
          with f(3) have "fill ! k \<in> set (if (i + 1 + int k) mod 2 = 0 then consonants else vowels)"
            by blast
          then show ?thesis unfolding Suc e by simp
        qed
      qed
      have "generateWithPrefix_loop i n code r = (code @ (c # fill), r')"
        using lt od p f(1) by (subst generateWithPrefix_loop.simps) simp
      moreover have "int (length (c # fill)) = max 0 (n - i)" using f(2) lt by simp
      ultimately show ?thesis using all by blast
    qed
  qed
qed

lemma codePoints_Cons:
  "h < 55296 \<Longrightarrow> codePoints (h # rest) = h # codePoints rest"
  by (cases rest) simp_all

lemma toUpperCase_Nil: "toUpperCase tbl [] = []"
  by (simp add: toUpperCase_def)

lemma toUpperCase_Cons:
  "h < 55296 \<Longrightarrow>
     toUpperCase tbl (h # rest)
       = concat (map codeUnits (toUpperCase_point tbl h)) @ toUpperCase tbl rest"
  by (simp add: toUpperCase_def codePoints_Cons)

lemma toUpperCase_ascii_unit:
  "u < 128 \<Longrightarrow> length (concat (map codeUnits (toUpperCase_point tbl u))) = 1"
  by (auto simp: toUpperCase_point_def codeUnits_def)

lemma toUpperCase_ascii_length:
  "\<forall>u\<in>set s. u < 128 \<Longrightarrow> length (toUpperCase tbl s) = length s"
  by (induction s) (simp_all add: toUpperCase_Nil toUpperCase_Cons toUpperCase_ascii_unit)

lemma toUpperCase_ascii_upper:
  "toUpperCase tbl (js ''AB'') = js ''AB''"
  "toUpperCase tbl (js ''ab'') = js ''AB''"
  "toUpperCase tbl (js ''bafek'') = js ''BAFEK''"
  "toUpperCase tbl (js ''tigol'') = js ''TIGOL''"
  by (simp_all add: js_def toUpperCase_Nil toUpperCase_Cons toUpperCase_point_def codeUnits_def)

text \<open>
  What \<open>generateWithPrefix\<close> does for every prefix: it throws exactly when
  \<open>5 - prefix.length < 3\<close>, and the error is then \<open>PrefixTooLong\<close>. For a prefix of
  at most 2 code units it returns the upper-cased prefix followed by
  \<open>5 - prefix.length\<close> characters that alternate consonant and vowel, starting with a
  consonant. The length is measured before the prefix is upper-cased, so the result
  has 5 characters when upper-casing keeps the length of the prefix, as it does for
  every ASCII prefix.
\<close>
lemma generateWithPrefix_shape:
  "((\<exists>e. generateWithPrefix tbl r p = Inl e) \<longleftrightarrow> 5 - int (length p) < 3)
   \<and> (5 - int (length p) < 3 \<longrightarrow> generateWithPrefix tbl r p = Inl PrefixTooLong)
   \<and> (length p \<le> 2 \<longrightarrow>
        (\<exists>fill r'. generateWithPrefix tbl r p = Inr (toUpperCase tbl p @ fill, r')
           \<and> length fill = 5 - length p
           \<and> (\<forall>j<length fill. fill ! j \<in> set (if even j then consonants else vowels))
           \<and> ((\<forall>u\<in>set p. u < 128) \<longrightarrow> length (toUpperCase tbl p @ fill) = 5)))"
proof (intro conjI impI)
  show "(\<exists>e. generateWithPrefix tbl r p = Inl e) \<longleftrightarrow> 5 - int (length p) < 3"
    by (simp add: generateWithPrefix_def Let_def)
next
  assume "5 - int (length p) < 3"
  then show "generateWithPrefix tbl r p = Inl PrefixTooLong"
    by (simp add: generateWithPrefix_def Let_def)
next
  assume len: "length p \<le> 2"
  obtain fill r' where
    f: "generateWithPrefix_loop 0 (5 - int (length p)) (toUpperCase tbl p) r = (toUpperCase tbl p @ fill, r')"
       "int (length fill) = max 0 (5 - int (length p) - 0)"
       "\<forall>j<length fill. fill ! j \<in> set (if (0 + int j) mod 2 = 0 then consonants else vowels)"
    using generateWithPrefix_loop_shape[of 0 "5 - int (length p)" "toUpperCase tbl p" r] by blast
  have g: "generateWithPrefix tbl r p = Inr (toUpperCase tbl p @ fill, r')"
    using len f(1) by (simp add: generateWithPrefix_def Let_def)
  have l: "length fill = 5 - length p" using f(2) len by simp
  have a: "\<forall>j<length fill. fill ! j \<in> set (if even j then consonants else vowels)"
  proof (intro allI impI)
    fix j assume "j < length fill"
    moreover have "((0 + int j) mod 2 = 0) = even j" by presburger
    ultimately show "fill ! j \<in> set (if even j then consonants else vowels)"
      using f(3) by auto
  qed
  have "length (toUpperCase tbl p @ fill) = 5" if "\<forall>u\<in>set p. u < 128"
    using toUpperCase_ascii_length[OF that] l len by simp
  with g l a show "\<exists>fill r'. generateWithPrefix tbl r p = Inr (toUpperCase tbl p @ fill, r')
           \<and> length fill = 5 - length p
           \<and> (\<forall>j<length fill. fill ! j \<in> set (if even j then consonants else vowels))
           \<and> ((\<forall>u\<in>set p. u < 128) \<longrightarrow> length (toUpperCase tbl p @ fill) = 5)"
    by blast
qed

lemma pick_zero: "pick (a # as) zero_draws = (a, zero_draws)"
  by (simp add: pick_def zero_draws_def advance_def)

lemma generateWithPrefix_shape_example:
  "generateWithPrefix plain_table zero_draws (js ''ab'') = Inr (js ''ABBAB'', zero_draws)
   \<and> generateWithPrefix plain_table zero_draws (js ''abc'') = Inl PrefixTooLong"
  by (simp add: generateWithPrefix_def Let_def toUpperCase_ascii_upper)
     (simp add: generateWithPrefix_loop.simps consonants_units vowels_units pick_zero js_def)

text \<open>
  Claim C9 at the one-character prefix U+00DF (sharp s). The prefix is accepted, since
  \<open>5 - 1\<close> is not below 3; its upper-case form is \<open>SS\<close>, and the loop adds four
  characters, because \<open>remainingLength\<close> was computed from the length of the prefix
  before it was upper-cased. The returned code has 6 characters, not 5.
\<close>

theorem generateWithPrefix_sharp_s:
  "length [223 :: nat] \<le> 2
   \<and> generateWithPrefix tbl zero_draws [223] = Inr (js ''SSBABA'', zero_draws)
   \<and> length (js ''SSBABA'') = 6"
  by (simp add: generateWithPrefix_def Let_def toUpperCase_Nil toUpperCase_Cons
      toUpperCase_point_def codeUnits_def
      generateWithPrefix_loop.simps consonants_units vowels_units pick_zero js_def)

text \<open>
  Claim C10. \<open>generateWithPrefix\<close> does not check the prefix against the position
  grammar: the prefix \<open>AB\<close> is accepted, and whatever the random source draws, the
  returned string fails \<open>isValidCode\<close>, because its first character is a vowel.
\<close>

theorem generateWithPrefix_AB_invalid:
  "length (js ''AB'') \<le> 2
   \<and> (\<forall>r. \<exists>c r'. generateWithPrefix tbl r (js ''AB'') = Inr (c, r') \<and> \<not> isValidCode tbl c)"
proof (intro conjI allI)
  show "length (js ''AB'') \<le> 2" by (simp add: js_def)
next
  fix r
  obtain fill r' where
    f: "generateWithPrefix_loop 0 3 (js ''AB'') r = (js ''AB'' @ fill, r')"
    using generateWithPrefix_loop_shape[of 0 3 "js ''AB''" r] by blast
  have up: "toUpperCase tbl (js ''AB'') = js ''AB''"
    by (rule toUpperCase_ascii_upper)
  have g: "generateWithPrefix tbl r (js ''AB'') = Inr (js ''AB'' @ fill, r')"
    using f by (simp add: generateWithPrefix_def Let_def up) (simp add: js_def)
  have "charAt (toUpperCase tbl (js ''AB'' @ fill)) 0 = Some 65"
    by (simp add: js_def toUpperCase_Cons toUpperCase_point_def codeUnits_def charAt_def)
  then have "\<not> isValidCode tbl (js ''AB'' @ fill)"
    by (simp add: isValidCode_def Let_def includes_str_def consonants_units)
  with g show "\<exists>c r'. generateWithPrefix tbl r (js ''AB'') = Inr (c, r') \<and> \<not> isValidCode tbl c"
    by blast
qed

theorem generateWithPrefix_AB_invalid_witness:
  "generateWithPrefix plain_table zero_draws (js ''AB'') = Inr (js ''ABBAB'', zero_draws)
   \<and> \<not> isValidCode plain_table (js ''ABBAB'')"
proof -
  have g: "generateWithPrefix plain_table zero_draws (js ''AB'') = Inr (js ''ABBAB'', zero_draws)"
    by (simp add: generateWithPrefix_def Let_def toUpperCase_ascii_upper)
       (simp add: generateWithPrefix_loop.simps consonants_units vowels_units pick_zero js_def)
  from generateWithPrefix_AB_invalid [of plain_table] obtain c r' where
    "generateWithPrefix plain_table zero_draws (js ''AB'') = Inr (c, r')"
    "\<not> isValidCode plain_table c" by blast
  with g show ?thesis by simp
qed

section \<open>The retry loops\<close>

lemma generateUniqueCode_loop_all_taken:
  assumes taken: "\<And>c. checkExistence c"
  shows "attempts \<le> maxAttempts \<Longrightarrow>
    \<exists>code' r'. generateUniqueCode_loop checkExistence code False attempts r
       = (code', False, maxAttempts, r')"
proof (induction "maxAttempts - attempts" arbitrary: attempts code r)
  case 0
  then have "attempts = maxAttempts" by simp
  then show ?case by (subst generateUniqueCode_loop.simps) simp
next
  case (Suc k)
  then have lt: "attempts < maxAttempts" by simp
  obtain c r1 where g: "generateCode r = (c, r1)" by (cases "generateCode r")
  have "k = maxAttempts - (attempts + 1)" using Suc.hyps(2) by simp
  moreover have "attempts + 1 \<le> maxAttempts" using lt by simp
  ultimately obtain code' r' where
    "generateUniqueCode_loop checkExistence (Some c) False (attempts + 1) r1
       = (code', False, maxAttempts, r')"
    using Suc.hyps(1) by blast
  then show ?case
    using lt g taken by (subst generateUniqueCode_loop.simps) simp
qed

lemma generateShareCode_loop_all_taken:
  assumes taken: "\<And>c. findOne c \<noteq> None"
  shows "generateShareCode_loop findOne r = None"
proof (cases "generateShareCode_loop findOne r")
  case None
  then show ?thesis .
next
  case (Some y)
  have "\<exists>c. findOne c = None"
    by (rule generateShareCode_loop.raw_induct
          [where P = "\<lambda>findOne r y. \<exists>c. findOne c = None", OF _ Some])
       (auto split: prod.splits option.splits)
  with taken show ?thesis by blast
qed

text \<open>
  The loop of \<open>User.generateShareCode\<close> also never ends on a store that holds just
  the codes that the generator can produce, a finite collection.
\<close>

lemma generateShareCode_loop_all_codes_taken:
  assumes taken: "\<And>r. findOne (fst (generateCode r)) \<noteq> None"
  shows "generateShareCode_loop findOne r = None"
proof (cases "generateShareCode_loop findOne r")
  case None
  then show ?thesis .
next
  case (Some y)
  have "\<exists>r'. findOne (fst (generateCode r')) = None"
  proof (rule generateShareCode_loop.raw_induct
          [where P = "\<lambda>findOne r y. \<exists>r'. findOne (fst (generateCode r')) = None", OF _ Some])
    fix lp findOne' r' y'
    assume ih: "\<And>f s z. lp f s = Some z \<Longrightarrow> \<exists>r'. f (fst (generateCode r')) = None"
      and body: "(case generateCode r' of (c, r'') \<Rightarrow>
                   (case findOne' c of None \<Rightarrow> Some (c, r'') | Some existing \<Rightarrow> lp findOne' r''))
                 = Some y'"
    obtain c r'' where g: "generateCode r' = (c, r'')" by (cases "generateCode r'")
    show "\<exists>r'. findOne' (fst (generateCode r')) = None"
    proof (cases "findOne' c")
      case None
      with g have "findOne' (fst (generateCode r')) = None" by simp
      then show ?thesis by blast
    next
      case (Some existing)
      with g body have "lp findOne' r'' = Some y'" by simp
      then show ?thesis by (rule ih)
    qed
  qed
  with taken show ?thesis by blast
qed

text \<open>
  Claim C1, on a store in which every candidate code is taken. The utility
  \<open>generateUniqueCode\<close> stops after exactly 100 attempts and throws \<open>MaxAttempts\<close>.
  \<open>User.generateShareCode\<close>, the loop that \<open>shareWith\<close> runs to give an account its
  code, has no bound and never returns.
\<close>

theorem share_code_retry_bound:
  assumes "\<forall>c. findOne c \<noteq> None"
  shows "generateShareCode tbl findOne r self = None
    \<and> fst (generateUniqueCode (\<lambda>c. findOne c \<noteq> None) r) = Inl MaxAttempts
    \<and> fst (snd (generateUniqueCode (\<lambda>c. findOne c \<noteq> None) r)) = 100"
proof -
  have "generateShareCode_loop findOne r = None"
    using assms by (intro generateShareCode_loop_all_taken) simp
  then have a: "generateShareCode tbl findOne r self = None"
    by (simp add: generateShareCode_def)
  obtain code' r' where
    "generateUniqueCode_loop (\<lambda>c. findOne c \<noteq> None) None False 0 r
       = (code', False, maxAttempts, r')"
    using generateUniqueCode_loop_all_taken[of "\<lambda>c. findOne c \<noteq> None" 0 None r] assms
    by auto
  then have "generateUniqueCode (\<lambda>c. findOne c \<noteq> None) r = (Inl MaxAttempts, 100, r')"
    by (simp add: generateUniqueCode_def maxAttempts_def)
  with a show ?thesis by simp
qed

theorem share_code_retry_bound_witness:
  "(\<forall>c. (\<lambda>c. Some \<lparr>uid = 1, shareCode = Some c, sharedWith = [], accessingViaCode = []\<rparr>) c \<noteq> None)
   \<and> generateShareCode plain_table
        (\<lambda>c. Some \<lparr>uid = 1, shareCode = Some c, sharedWith = [], accessingViaCode = []\<rparr>)
        zero_draws \<lparr>uid = 2, shareCode = None, sharedWith = [], accessingViaCode = []\<rparr> = None"
  using share_code_retry_bound
    [of "\<lambda>c. Some \<lparr>uid = 1, shareCode = Some c, sharedWith = [], accessingViaCode = []\<rparr>"
        plain_table zero_draws "\<lparr>uid = 2, shareCode = None, sharedWith = [], accessingViaCode = []\<rparr>"]
  by simp

section \<open>Properties of the List model\<close>

lemma find_updateFirst:
  "find p xs = Some x \<Longrightarrow> p y \<Longrightarrow> find p (updateFirst p (\<lambda>_. y) xs) = Some y"
  by (induction xs) (auto split: if_splits)


lemma getMinutes_range: "0 \<le> getMinutes env t \<and> getMinutes env t < 60"
  by (simp add: getMinutes_def)






text \<open>
  Claim C8, as the code has it. \<open>updateItem\<close> stamps the completion time only when
  the item has none: for an update that sets the status to \<open>completed\<close> and carries no
  \<open>completedAt\<close> of its own, an item that already has a completion time keeps it, and
  an item without one gets the current time.
\<close>
theorem updateItem_completedAt:
  assumes "find (\<lambda>i. item_id i = itemId) (items l) = Some it"
    and "u_status u = Some Completed"
    and "u_completedAt u = None"
    and "(case u_title u of None \<Rightarrow> title it | Some t \<Rightarrow> trim t) \<noteq> []"
  shows "\<exists>it' l'. updateItem now l itemId u = Inr (it', l')
           \<and> find (\<lambda>i. item_id i = itemId) (items l') = Some it'
           \<and> status it' = Completed
           \<and> completedAt it' = (case completedAt it of None \<Rightarrow> Some now | Some t0 \<Rightarrow> Some t0)"
proof -
  from assms(1) have id: "item_id it = itemId"
    by (auto simp: find_Some_iff)
  show ?thesis
    using assms id
    by (auto simp: updateItem_def assign_def Let_def find_updateFirst split: option.splits)
qed

theorem updateItem_completedAt_witness:
  "find (\<lambda>i. item_id i = 1) (items sample_list) = Some sample_item
   \<and> u_status complete_update = Some Completed \<and> u_completedAt complete_update = None
   \<and> title sample_item \<noteq> []
   \<and> (\<exists>it' l'. updateItem 2000 sample_list 1 complete_update = Inr (it', l')
         \<and> completedAt it' = Some 1000)"
  using updateItem_completedAt [of 1 sample_list sample_item complete_update 2000]
  by (auto simp: sample_list_def sample_item_def complete_update_def js_def)

text \<open>
  The completion time is not overwritten: an item completed at 1000 and set to
  \<open>completed\<close> again at 2000 still has the completion time 1000.
\<close>
theorem updateItem_keeps_completedAt:
  "completedAt sample_item = Some 1000
   \<and> map_sum id (completedAt \<circ> fst) (updateItem 2000 sample_list 1 complete_update)
       = Inr (Some 1000)"
  by (simp add: updateItem_def assign_def Let_def sample_list_def sample_item_def
      complete_update_def js_def)

section \<open>Properties of the Contact post-save hook\<close>

lemma trim_append_identity:
  assumes "name \<noteq> []" and "trim name = name" and "suffix \<noteq> []"
    and "\<not> isWhiteSpace (last suffix)"
  shows "trim (name @ suffix) = name @ suffix"
proof -
  have "dropWhile isWhiteSpace (rev (dropWhile isWhiteSpace (rev name))) \<noteq> []"
    using assms(1,2) by (simp add: trim_def)
  then have "\<not> isWhiteSpace (hd (dropWhile isWhiteSpace (rev (dropWhile isWhiteSpace (rev name)))))"
    by (rule hd_dropWhile)
  then have h: "\<not> isWhiteSpace (hd name)"
    using assms(2) by (simp add: trim_def)
  have "rev suffix = last suffix # rev (butlast suffix)"
    using assms(3) by (metis append_butlast_last_id rev_eq_Cons_iff rev_rev_ident)
  then have e: "rev (name @ suffix) = last suffix # (rev (butlast suffix) @ rev name)"
    by simp
  have "dropWhile isWhiteSpace (rev (name @ suffix)) = rev (name @ suffix)"
    unfolding e by (simp add: assms(4))
  moreover have "dropWhile isWhiteSpace (name @ suffix) = name @ suffix"
    using h assms(1) by (cases name) simp_all
  ultimately show ?thesis by (simp add: trim_def)
qed

lemma find_append_fresh:
  "\<forall>x\<in>set xs. \<not> P x \<Longrightarrow> find P (xs @ ys) = find P ys"
  by (induction xs) auto

lemma find_updateFirst_key:
  "(\<And>c. key (f c) = key c) \<Longrightarrow>
     find (\<lambda>c. key c = k) (updateFirst (\<lambda>c. key c = k) f xs)
       = map_option f (find (\<lambda>c. key c = k) xs)"
  by (induction xs) auto

lemma createDefaultLists_ok:
  assumes "\<not> fault 0" "\<not> fault 1" "\<not> fault 2" "\<not> fault 3"
    and "t \<notin> set (map l_id (lists st))" "m \<notin> set (map l_id (lists st))"
        "x \<notin> set (map l_id (lists st))"
    and "t \<noteq> m" "t \<noteq> x" "m \<noteq> x"
  shows "createDefaultLists fault (t, m, x) doc st =
    (Inr (doc\<lparr>dl_tasks := Some t, dl_meetings := Some m, dl_transactions := Some x\<rparr>),
     st\<lparr>lists := lists st @ [tasksList t doc, meetingsList m doc, transactionsList x doc],
        contacts := updateFirst (\<lambda>c. c_id c = c_id doc)
          (\<lambda>c. c\<lparr>dl_tasks := Some t, dl_meetings := Some m, dl_transactions := Some x\<rparr>)
          (contacts st)\<rparr>)"
  using assms
  by (simp add: createDefaultLists_def save_list_def updateOne_defaultLists_def
      tasksList_def meetingsList_def transactionsList_def)

lemma default_list_names:
  assumes "c_name doc \<noteq> []" and "trim (c_name doc) = c_name doc"
  shows "l_name (tasksList t doc) = c_name doc @ js '' - Tasks''"
    and "l_name (meetingsList m doc) = c_name doc @ js '' - Meetings''"
    and "l_name (transactionsList x doc) = c_name doc @ js '' - Transactions''"
proof -
  have "trim (c_name doc @ js '' - Tasks'') = c_name doc @ js '' - Tasks''"
    by (rule trim_append_identity[OF assms]) (simp_all add: js_def isWhiteSpace_def)
  then show "l_name (tasksList t doc) = c_name doc @ js '' - Tasks''"
    by (simp add: tasksList_def)
  have "trim (c_name doc @ js '' - Meetings'') = c_name doc @ js '' - Meetings''"
    by (rule trim_append_identity[OF assms]) (simp_all add: js_def isWhiteSpace_def)
  then show "l_name (meetingsList m doc) = c_name doc @ js '' - Meetings''"
    by (simp add: meetingsList_def)
  have "trim (c_name doc @ js '' - Transactions'') = c_name doc @ js '' - Transactions''"
    by (rule trim_append_identity[OF assms]) (simp_all add: js_def isWhiteSpace_def)
  then show "l_name (transactionsList x doc) = c_name doc @ js '' - Transactions''"
    by (simp add: transactionsList_def)
qed

text \<open>
  Claim C2, as the code has it. The hook reads \<open>this.isNew\<close> as \<open>false\<close>, so it
  creates the lists only for a contact that has none of the three references, and it
  needs the store to accept its four writes (three list documents under fresh ids, then
  the update of the contact). Then, when the hook is done, the three references of the
  contact (in memory and in the store) are set, and each referenced list is a default
  list of this contact with the list type of its category, the contact's owner and the
  name made from the contact's name. The name is stated for a contact document as the
  schema holds it: required and trimmed.
\<close>
theorem postSave_creates_default_lists:
  assumes not_new: "\<not> isNew"
    and no_reference:
      "dl_tasks doc = None \<and> dl_meetings doc = None \<and> dl_transactions doc = None"
    and accepted: "\<not> fault 0" "\<not> fault 1" "\<not> fault 2" "\<not> fault 3"
    and fresh: "t \<notin> set (map l_id (lists st))" "m \<notin> set (map l_id (lists st))"
        "x \<notin> set (map l_id (lists st))"
    and distinct: "t \<noteq> m" "t \<noteq> x" "m \<noteq> x"
    and name: "c_name doc \<noteq> []" "trim (c_name doc) = c_name doc"
  shows "\<exists>doc' st'. postSave isNew fault (t, m, x) doc st = (None, doc', st')
    \<and> dl_tasks doc' = Some t \<and> dl_meetings doc' = Some m \<and> dl_transactions doc' = Some x
    \<and> (\<exists>l. findById_list st' t = Some l \<and> isDefault l \<and> contactOwner l = Some (c_id doc)
          \<and> listType l = Task \<and> l_owner l = c_owner doc
          \<and> l_name l = c_name doc @ js '' - Tasks'')
    \<and> (\<exists>l. findById_list st' m = Some l \<and> isDefault l \<and> contactOwner l = Some (c_id doc)
          \<and> listType l = Meeting \<and> l_owner l = c_owner doc
          \<and> l_name l = c_name doc @ js '' - Meetings'')
    \<and> (\<exists>l. findById_list st' x = Some l \<and> isDefault l \<and> contactOwner l = Some (c_id doc)
          \<and> listType l = Transaction \<and> l_owner l = c_owner doc
          \<and> l_name l = c_name doc @ js '' - Transactions'')
    \<and> map_option (\<lambda>c. (dl_tasks c, dl_meetings c, dl_transactions c))
          (findById_contact st' (c_id doc))
        = map_option (\<lambda>c. (Some t, Some m, Some x)) (findById_contact st (c_id doc))"
proof -
  let ?doc' = "doc\<lparr>dl_tasks := Some t, dl_meetings := Some m, dl_transactions := Some x\<rparr>"
  let ?st' = "st\<lparr>lists := lists st @ [tasksList t doc, meetingsList m doc, transactionsList x doc],
        contacts := updateFirst (\<lambda>c. c_id c = c_id doc)
          (\<lambda>c. c\<lparr>dl_tasks := Some t, dl_meetings := Some m, dl_transactions := Some x\<rparr>)
          (contacts st)\<rparr>"
  have run: "postSave isNew fault (t, m, x) doc st = (None, ?doc', ?st')"
    using no_reference createDefaultLists_ok[OF accepted fresh distinct, of doc]
    by (simp add: postSave_def)
  have ft: "\<forall>l\<in>set (lists st). \<not> l_id l = t" using fresh(1) by auto
  have fm: "\<forall>l\<in>set (lists st). \<not> l_id l = m" using fresh(2) by auto
  have fx: "\<forall>l\<in>set (lists st). \<not> l_id l = x" using fresh(3) by auto
  have lt: "findById_list ?st' t = Some (tasksList t doc)"
    by (simp add: findById_list_def find_append_fresh[OF ft] tasksList_def)
  have lm: "findById_list ?st' m = Some (meetingsList m doc)"
    using distinct
    by (simp add: findById_list_def find_append_fresh[OF fm] tasksList_def meetingsList_def)
  have lx: "findById_list ?st' x = Some (transactionsList x doc)"
    using distinct
    by (simp add: findById_list_def find_append_fresh[OF fx] tasksList_def meetingsList_def
        transactionsList_def)
  have pt: "isDefault (tasksList t doc) \<and> contactOwner (tasksList t doc) = Some (c_id doc)
      \<and> listType (tasksList t doc) = Task \<and> l_owner (tasksList t doc) = c_owner doc"
    by (simp add: tasksList_def)
  have pm: "isDefault (meetingsList m doc) \<and> contactOwner (meetingsList m doc) = Some (c_id doc)
      \<and> listType (meetingsList m doc) = Meeting \<and> l_owner (meetingsList m doc) = c_owner doc"
    by (simp add: meetingsList_def)
  have px: "isDefault (transactionsList x doc)
      \<and> contactOwner (transactionsList x doc) = Some (c_id doc)
      \<and> listType (transactionsList x doc) = Transaction
      \<and> l_owner (transactionsList x doc) = c_owner doc"
    by (simp add: transactionsList_def)
  have stored: "map_option (\<lambda>c. (dl_tasks c, dl_meetings c, dl_transactions c))
          (findById_contact ?st' (c_id doc))
        = map_option (\<lambda>c. (Some t, Some m, Some x)) (findById_contact st (c_id doc))"
    by (simp add: findById_contact_def find_updateFirst_key option.map_comp comp_def)
  show ?thesis
    using run lt lm lx pt pm px stored default_list_names[OF name]
    by simp
qed

theorem postSave_creates_default_lists_witness:
  "dl_tasks new_contact = None \<and> dl_meetings new_contact = None
   \<and> dl_transactions new_contact = None
   \<and> c_name new_contact \<noteq> [] \<and> trim (c_name new_contact) = c_name new_contact
   \<and> (\<exists>doc' st'. postSave False no_fault (11, 12, 13) new_contact new_store = (None, doc', st')
        \<and> dl_tasks doc' = Some 11 \<and> dl_meetings doc' = Some 12 \<and> dl_transactions doc' = Some 13
        \<and> map_option l_name (findById_list st' 11) = Some (js ''Bob - Tasks'')
        \<and> map_option (\<lambda>c. (dl_tasks c, dl_meetings c, dl_transactions c))
             (findById_contact st' 5) = Some (Some 11, Some 12, Some 13))"
  using postSave_creates_default_lists [of False new_contact no_fault 11 new_store 12 13]
  by (auto simp: new_contact_def new_store_def no_fault_def js_def trim_def isWhiteSpace_def
        findById_contact_def)

text \<open>
  The references are not always set when the hook is done: if the store rejects the save
  of the meetings list for a contact without references, the hook ends normally with
  the tasks list stored and all three references still empty.
\<close>
theorem postSave_failed_write_leaves_no_reference:
  "dl_tasks new_contact = None \<and> dl_meetings new_contact = None
   \<and> dl_transactions new_contact = None
   \<and> (case postSave False (fault_at 1) (11, 12, 13) new_contact new_store of
         (e, doc', st') \<Rightarrow> e = None \<and> dl_tasks doc' = None \<and> dl_meetings doc' = None
            \<and> dl_transactions doc' = None \<and> map l_id (lists st') = [11]
            \<and> contacts st' = [new_contact])"
  by (simp add: postSave_def createDefaultLists_def save_list_def fault_at_def
      new_contact_def new_store_def tasksList_def meetingsList_def)

text \<open>
  Claim C3, as the code has it. For a contact that is not new and has at least one of
  its three default-list references, the hook does nothing: it creates no list and
  leaves the contact and the store as they are. This covers the contact with all three
  references, and it also means that missing lists of a partly provisioned contact are
  not created.
\<close>
theorem postSave_existing_contact_unchanged:
  assumes "\<not> isNew"
    and "dl_tasks doc \<noteq> None \<or> dl_meetings doc \<noteq> None \<or> dl_transactions doc \<noteq> None"
  shows "postSave isNew fault ids doc st = (None, doc, st)"
  using assms by (auto simp: postSave_def)

theorem postSave_existing_contact_unchanged_witness:
  "dl_tasks partial_contact \<noteq> None
   \<and> postSave False no_fault (11, 12, 13) partial_contact partial_store
       = (None, partial_contact, partial_store)"
  using postSave_existing_contact_unchanged [of False partial_contact no_fault "(11, 12, 13)" partial_store]
  by (simp add: partial_contact_def)

text \<open>
  The missing lists are not created: for a stored contact with only its tasks
  reference, the hook leaves the meetings and transactions references empty and adds no
  list.
\<close>
theorem postSave_missing_lists_not_created:
  "dl_tasks partial_contact = Some 10 \<and> dl_meetings partial_contact = None
   \<and> dl_transactions partial_contact = None
   \<and> (case postSave False no_fault (11, 12, 13) partial_contact partial_store of
         (e, doc', st') \<Rightarrow> dl_meetings doc' = None \<and> dl_transactions doc' = None
            \<and> lists st' = lists partial_store \<and> contacts st' = contacts partial_store)"
  by (simp add: postSave_def partial_contact_def)

lemma createDefaultLists_rejected:
  assumes "fault 0 \<or> fault 1 \<or> fault 2 \<or> fault 3"
  shows "\<exists>st'. createDefaultLists fault ids doc st = (Inl StoreFailure, st')
    \<and> contacts st' = contacts st \<and> console st' = console st"
  using assms
  by (cases ids) (auto simp: createDefaultLists_def save_list_def updateOne_defaultLists_def
        split: sum.splits if_splits)

text \<open>
  Claim C6, as the code has it. When a contact without references is created and the
  store rejects one of the hook's writes (a default list or the update of the
  references), the \<open>catch\<close> of the hook writes the error to the console and the hook
  ends with \<open>next()\<close>: creating the contact succeeds, the caller gets the contact with
  its references as they were, and the contact is stored.
\<close>
theorem createContact_swallows_hook_failure:
  assumes "dl_tasks doc = None \<and> dl_meetings doc = None \<and> dl_transactions doc = None"
    and "fault 0 \<or> fault 1 \<or> fault 2 \<or> fault 3"
    and "c_name doc \<noteq> []" and "\<not> insertFault"
    and "c_id doc \<notin> set (map c_id (contacts st))"
  shows "\<exists>st'. createContact insertFault fault ids doc st = (Inr doc, st')
    \<and> console st' = console st @ [StoreFailure]
    \<and> findById_contact st' (c_id doc) = Some doc"
proof -
  let ?st1 = "st\<lparr>contacts := contacts st @ [doc]\<rparr>"
  have ins: "insert_contact insertFault doc st = Inr ?st1"
    using assms(3,4,5) by (simp add: insert_contact_def)
  obtain st2 where
    c: "createDefaultLists fault ids doc ?st1 = (Inl StoreFailure, st2)"
       "contacts st2 = contacts ?st1" "console st2 = console ?st1"
    using createDefaultLists_rejected[OF assms(2), of ids doc ?st1] by blast
  have hook: "postSave False fault ids doc ?st1
      = (None, doc, st2\<lparr>console := console st2 @ [StoreFailure]\<rparr>)"
    using assms(1) c(1) by (simp add: postSave_def)
  have fr: "\<forall>d\<in>set (contacts st). \<not> c_id d = c_id doc" using assms(5) by (metis image_eqI list.set_map)
  have "findById_contact (st2\<lparr>console := console st2 @ [StoreFailure]\<rparr>) (c_id doc) = Some doc"
    using c(2) by (simp add: findById_contact_def find_append_fresh[OF fr])
  then show ?thesis
    using ins hook c(3) by (simp add: createContact_def)
qed

theorem createContact_swallows_hook_failure_witness:
  "dl_tasks new_contact = None \<and> dl_meetings new_contact = None
   \<and> dl_transactions new_contact = None \<and> fault_at 2 2 \<and> c_name new_contact \<noteq> []
   \<and> c_id new_contact \<notin> set (map c_id (contacts empty_store))
   \<and> (\<exists>st'. createContact False (fault_at 2) (11, 12, 13) new_contact empty_store
         = (Inr new_contact, st') \<and> console st' = [StoreFailure])"
  using createContact_swallows_hook_failure
    [of new_contact "fault_at 2" False empty_store "(11, 12, 13)"]
  by (auto simp: new_contact_def empty_store_def fault_at_def js_def)

text \<open>
  The failure is not propagated: when the save of the tasks list is rejected, creating
  the contact still returns the contact, and the error is only on the console.
\<close>
theorem createContact_hides_failed_list_save:
  "fault_at 0 0
   \<and> createContact False (fault_at 0) (11, 12, 13) new_contact empty_store
       = (Inr new_contact, \<lparr>lists = [], contacts = [new_contact], console = [StoreFailure]\<rparr>)"
  by (simp add: createContact_def insert_contact_def postSave_def createDefaultLists_def
      save_list_def fault_at_def new_contact_def empty_store_def js_def)

section \<open>Properties of the access-grant protocol\<close>

lemma find_map_preserve:
  "(\<And>x. P (f x) = P x) \<Longrightarrow> find P (map f xs) = map_option f (find P xs)"
  by (induction xs) auto

lemma codePoints_nonempty: "s \<noteq> [] \<Longrightarrow> codePoints s \<noteq> []"
  by (induction s rule: codePoints.induct) simp_all

lemma toUpperCase_point_nonempty: "toUpperCase_point tbl p \<noteq> []"
  by (simp add: toUpperCase_point_def split: prod.splits)

lemma codeUnits_nonempty: "codeUnits p \<noteq> []"
  by (simp add: codeUnits_def)

lemma toUpperCase_nonempty: "s \<noteq> [] \<Longrightarrow> toUpperCase tbl s \<noteq> []"
proof -
  assume "s \<noteq> []"
  then obtain p ps where c: "codePoints s = p # ps"
    using codePoints_nonempty by (cases "codePoints s") auto
  obtain q qs where u: "toUpperCase_point tbl p = q # qs"
    using toUpperCase_point_nonempty by (cases "toUpperCase_point tbl p") auto
  show ?thesis
    using codeUnits_nonempty by (simp add: toUpperCase_def c u)
qed

lemma list_ex_filter: "list_ex P xs = (filter P xs \<noteq> [])"
  by (induction xs) auto

lemma shareWith_has_code:
  assumes "shareCode owner = Some c" and "c \<noteq> []"
  shows "shareWith tbl db r owner target level =
     (if \<not> list_ex (\<lambda>share. userId share = target) (sharedWith owner) then
        Some (Some c,
              owner\<lparr>sharedWith := sharedWith owner @ [\<lparr>userId = target, accessLevel = level\<rparr>]\<rparr>,
              save_sharedWith db
                (owner\<lparr>sharedWith := sharedWith owner @ [\<lparr>userId = target, accessLevel = level\<rparr>]\<rparr>),
              r)
      else Some (Some c, owner, db, r))"
  using assms by (simp add: shareWith_def falsy_str_def Let_def)

lemma accessViaCode_not_found:
  "findOne_shareCode db (toUpperCase tbl presented) = None \<Longrightarrow>
     accessViaCode tbl db r self presented = Some (Inl InvalidShareCode, self, db, r)"
  by (simp add: accessViaCode_def)

lemma accessViaCode_found_no_error:
  "findOne_shareCode db (toUpperCase tbl presented) = Some owner \<Longrightarrow>
     accessViaCode tbl db r self presented \<noteq> Some (Inl e, s)"
  by (auto simp: accessViaCode_def Let_def split: option.splits)

text \<open>
  Claim C5. \<open>accessViaCode\<close> throws \<open>'Invalid share code'\<close> exactly when no account
  in the store has the presented code, normalised to upper case, as its share code.
  When it throws, the requester's document and the store are as they were before the
  call; when some account has the code, the call throws nothing.
\<close>
theorem accessViaCode_invalid_code:
  "((\<forall>u\<in>set db. shareCode u \<noteq> Some (toUpperCase tbl presented)) \<longrightarrow>
       accessViaCode tbl db r self presented = Some (Inl InvalidShareCode, self, db, r))
   \<and> ((\<exists>u\<in>set db. shareCode u = Some (toUpperCase tbl presented)) \<longrightarrow>
       (\<forall>e s. accessViaCode tbl db r self presented \<noteq> Some (Inl e, s)))"
proof (intro conjI impI)
  assume "\<forall>u\<in>set db. shareCode u \<noteq> Some (toUpperCase tbl presented)"
  then have "findOne_shareCode db (toUpperCase tbl presented) = None"
    by (simp add: findOne_shareCode_def find_None_iff)
  then show "accessViaCode tbl db r self presented = Some (Inl InvalidShareCode, self, db, r)"
    by (rule accessViaCode_not_found)
next
  assume "\<exists>u\<in>set db. shareCode u = Some (toUpperCase tbl presented)"
  then have "findOne_shareCode db (toUpperCase tbl presented) \<noteq> None"
    by (auto simp: findOne_shareCode_def find_None_iff)
  then obtain owner where "findOne_shareCode db (toUpperCase tbl presented) = Some owner"
    by blast
  then show "\<forall>e s. accessViaCode tbl db r self presented \<noteq> Some (Inl e, s)"
    using accessViaCode_found_no_error by blast
qed

theorem accessViaCode_invalid_code_witness:
  "list_all (\<lambda>u. shareCode u \<noteq> Some (toUpperCase plain_table (js ''tigol''))) [owner_account, requester_account]
   \<and> accessViaCode plain_table [owner_account, requester_account] zero_draws requester_account (js ''tigol'')
       = Some (Inl InvalidShareCode, requester_account, [owner_account, requester_account], zero_draws)
   \<and> list_ex (\<lambda>u. shareCode u = Some (toUpperCase plain_table (js ''bafek''))) [owner_account, requester_account]
   \<and> accessViaCode plain_table [owner_account, requester_account] zero_draws requester_account (js ''bafek'')
       \<noteq> Some (Inl InvalidShareCode, requester_account, [owner_account, requester_account], zero_draws)"
  using accessViaCode_invalid_code
    [of "[owner_account, requester_account]" plain_table "js ''tigol''" zero_draws
        requester_account]
    accessViaCode_invalid_code
    [of "[owner_account, requester_account]" plain_table "js ''bafek''" zero_draws
        requester_account]
  by (simp add: toUpperCase_ascii_upper) (simp add: owner_account_def requester_account_def js_def)

lemma accessViaCode_found:
  assumes "findOne_shareCode db (toUpperCase tbl presented) = Some owner" and "presented \<noteq> []"
  shows "accessViaCode tbl db r self presented =
    (let c = toUpperCase tbl presented;
         self1 = (if \<not> list_ex (\<lambda>a. acc_code a = c) (accessingViaCode self) then
                    self\<lparr>accessingViaCode := accessingViaCode self @
                      [\<lparr>acc_code = c, acc_ownerId = uid owner\<rparr>]\<rparr>
                  else self);
         db1 = (if \<not> list_ex (\<lambda>a. acc_code a = c) (accessingViaCode self)
                then save_accessingViaCode db self1 else db);
         owner1 = (if \<not> list_ex (\<lambda>g. userId g = uid self) (sharedWith owner) then
                     owner\<lparr>sharedWith := sharedWith owner @
                       [\<lparr>userId = uid self, accessLevel = View\<rparr>]\<rparr>
                   else owner);
         db2 = (if \<not> list_ex (\<lambda>g. userId g = uid self) (sharedWith owner)
                then save_sharedWith db1 owner1 else db1)
     in Some (Inr owner1, self1, db2, r))"
proof -
  have "shareCode owner = Some (toUpperCase tbl presented)"
    using assms(1) by (auto simp: findOne_shareCode_def find_Some_iff)
  then show ?thesis
    using assms toUpperCase_nonempty[OF assms(2)]
    by (simp add: accessViaCode_def Let_def shareWith_has_code)
qed

text \<open>
  Claim C4, as the code has it. The requester's stored document \<open>self\<close> presents a
  non-empty code whose upper-case form is the share code of \<open>owner\<close>. The accounts are
  well formed: the requester has at most one access record for the code, naming the
  owner, and the owner has at most one grant for the requester. Then both calls of
  \<open>accessViaCode\<close> return the owner's document, the second call changes neither the
  requester nor the store, the requester (in memory and stored) has exactly one access
  record for the code, with the owner's id, and the owner has exactly one grant for the
  requester. That grant is the one the owner had before, with its level, if there was
  one; otherwise it is the new grant with level \<open>view\<close>.
\<close>
theorem accessViaCode_twice:
  assumes held: "findOne_shareCode db (toUpperCase tbl presented) = Some owner"
    and nonempty: "presented \<noteq> []"
    and one_record:
      "length (filter (\<lambda>a. acc_code a = toUpperCase tbl presented) (accessingViaCode self)) \<le> 1"
    and record_owner:
      "\<forall>a\<in>set (accessingViaCode self).
          acc_code a = toUpperCase tbl presented \<longrightarrow> acc_ownerId a = uid owner"
    and one_grant: "length (filter (\<lambda>g. userId g = uid self) (sharedWith owner)) \<le> 1"
    and stored: "findById_user db (uid self) = Some self"
  shows "\<exists>owner1 self1 db1 owner2.
      accessViaCode tbl db r self presented = Some (Inr owner1, self1, db1, r)
    \<and> accessViaCode tbl db1 r self1 presented = Some (Inr owner2, self1, db1, r)
    \<and> uid owner1 = uid owner \<and> uid owner2 = uid owner
    \<and> findOne_shareCode db1 (toUpperCase tbl presented) = Some owner2
    \<and> sharedWith owner1 = sharedWith owner2
    \<and> map_option accessingViaCode (findById_user db1 (uid self)) = Some (accessingViaCode self1)
    \<and> length (filter (\<lambda>a. acc_code a = toUpperCase tbl presented) (accessingViaCode self1)) = 1
    \<and> (\<forall>a\<in>set (accessingViaCode self1).
          acc_code a = toUpperCase tbl presented \<longrightarrow> acc_ownerId a = uid owner)
    \<and> length (filter (\<lambda>g. userId g = uid self) (sharedWith owner2)) = 1
    \<and> filter (\<lambda>g. userId g = uid self) (sharedWith owner2) =
         (if list_ex (\<lambda>g. userId g = uid self) (sharedWith owner)
          then filter (\<lambda>g. userId g = uid self) (sharedWith owner)
          else [\<lparr>userId = uid self, accessLevel = View\<rparr>])"
proof -
  define c where "c = toUpperCase tbl presented"
  define aa where "aa = list_ex (\<lambda>a. acc_code a = c) (accessingViaCode self)"
  define ag where "ag = list_ex (\<lambda>g. userId g = uid self) (sharedWith owner)"
  define self1 where "self1 = (if \<not> aa then
      self\<lparr>accessingViaCode := accessingViaCode self @ [\<lparr>acc_code = c, acc_ownerId = uid owner\<rparr>]\<rparr>
      else self)"
  define owner1 where "owner1 = (if \<not> ag then
      owner\<lparr>sharedWith := sharedWith owner @ [\<lparr>userId = uid self, accessLevel = View\<rparr>]\<rparr>
      else owner)"
  define db1 where "db1 = (if \<not> aa then save_accessingViaCode db self1 else db)"
  define db2 where "db2 = (if \<not> ag then save_sharedWith db1 owner1 else db1)"
  have first: "accessViaCode tbl db r self presented = Some (Inr owner1, self1, db2, r)"
    using accessViaCode_found[OF held nonempty, of r self]
    by (simp add: Let_def c_def aa_def ag_def self1_def owner1_def db1_def db2_def)
  have code: "shareCode owner = Some c"
    using held by (auto simp: findOne_shareCode_def find_Some_iff c_def)
  have uid_self1: "uid self1 = uid self" by (simp add: self1_def)
  have uid_owner1: "uid owner1 = uid owner" by (simp add: owner1_def)
  \<comment> \<open>the stored owner after the first call\<close>
  define g1 where "g1 = (\<lambda>d::user. if \<not> aa \<and> uid d = uid self
      then d\<lparr>accessingViaCode := accessingViaCode self1\<rparr> else d)"
  define g2 where "g2 = (\<lambda>d::user. if \<not> ag \<and> uid d = uid owner
      then d\<lparr>sharedWith := sharedWith owner1\<rparr> else d)"
  have db1_map: "db1 = map g1 db"
    by (cases aa) (simp_all add: db1_def g1_def save_accessingViaCode_def uid_self1)
  have db2_map: "db2 = map g2 db1"
    by (cases ag) (simp_all add: db2_def g2_def save_sharedWith_def uid_owner1)
  have p1: "find (\<lambda>u. shareCode u = Some c) (map g1 db)
      = map_option g1 (find (\<lambda>u. shareCode u = Some c) db)"
    by (rule find_map_preserve) (simp add: g1_def)
  have p2: "find (\<lambda>u. shareCode u = Some c) (map g2 (map g1 db))
      = map_option g2 (find (\<lambda>u. shareCode u = Some c) (map g1 db))"
    by (rule find_map_preserve) (simp add: g2_def)
  have p0: "find (\<lambda>u. shareCode u = Some c) db = Some owner"
    using held by (simp add: findOne_shareCode_def c_def)
  have found2: "findOne_shareCode db2 c = Some (g2 (g1 owner))"
    unfolding findOne_shareCode_def db2_map db1_map p2 p1 p0 by simp
  have q1: "find (\<lambda>u. uid u = uid self) (map g1 db)
      = map_option g1 (find (\<lambda>u. uid u = uid self) db)"
    by (rule find_map_preserve) (simp add: g1_def)
  have q2: "find (\<lambda>u. uid u = uid self) (map g2 (map g1 db))
      = map_option g2 (find (\<lambda>u. uid u = uid self) (map g1 db))"
    by (rule find_map_preserve) (simp add: g2_def)
  have q0: "find (\<lambda>u. uid u = uid self) db = Some self"
    using stored by (simp add: findById_user_def)
  have "findById_user db2 (uid self) = Some (g2 (g1 self))"
    unfolding findById_user_def db2_map db1_map q2 q1 q0 by simp
  then have stored2:
    "map_option accessingViaCode (findById_user db2 (uid self)) = Some (accessingViaCode self1)"
    by (simp add: g1_def g2_def self1_def)
  define owner2 where "owner2 = g2 (g1 owner)"
  have uid_owner2: "uid owner2 = uid owner" by (simp add: owner2_def g1_def g2_def)
  have shared2: "sharedWith owner2 = sharedWith owner1"
    by (simp add: owner2_def g1_def g2_def owner1_def)
  have grants1: "filter (\<lambda>g. userId g = uid self) (sharedWith owner1) =
      (if ag then filter (\<lambda>g. userId g = uid self) (sharedWith owner)
       else [\<lparr>userId = uid self, accessLevel = View\<rparr>])"
    by (simp add: owner1_def ag_def list_ex_filter)
  have grants_len: "length (filter (\<lambda>g. userId g = uid self) (sharedWith owner1)) = 1"
  proof (cases ag)
    case True
    then have "filter (\<lambda>g. userId g = uid self) (sharedWith owner) \<noteq> []"
      by (simp add: ag_def list_ex_filter)
    then have "length (filter (\<lambda>g. userId g = uid self) (sharedWith owner)) = 1"
      using one_grant by (cases "filter (\<lambda>g. userId g = uid self) (sharedWith owner)") simp_all
    with True show ?thesis by (simp add: grants1)
  next
    case False
    then show ?thesis by (simp add: grants1)
  qed
  have records_len: "length (filter (\<lambda>a. acc_code a = c) (accessingViaCode self1)) = 1"
  proof (cases aa)
    case True
    then have "filter (\<lambda>a. acc_code a = c) (accessingViaCode self) \<noteq> []"
      by (simp add: aa_def list_ex_filter)
    then have "length (filter (\<lambda>a. acc_code a = c) (accessingViaCode self)) = 1"
      using one_record
      by (cases "filter (\<lambda>a. acc_code a = c) (accessingViaCode self)") (simp_all add: c_def)
    with True show ?thesis by (simp add: self1_def)
  next
    case False
    then have "filter (\<lambda>a. acc_code a = c) (accessingViaCode self) = []"
      by (simp add: aa_def list_ex_filter)
    with False show ?thesis by (simp add: self1_def)
  qed
  have records_owner: "\<forall>a\<in>set (accessingViaCode self1). acc_code a = c \<longrightarrow> acc_ownerId a = uid owner"
    using record_owner by (auto simp: self1_def c_def)
  \<comment> \<open>the second call finds the record and the grant and changes nothing\<close>
  have aa2: "list_ex (\<lambda>a. acc_code a = c) (accessingViaCode self1)"
    using records_len by (simp add: list_ex_filter length_Suc_conv del: One_nat_def) auto
  have ag2: "list_ex (\<lambda>g. userId g = uid self1) (sharedWith owner2)"
    using grants_len by (simp add: list_ex_filter shared2 uid_self1 del: One_nat_def) auto
  have second: "accessViaCode tbl db2 r self1 presented = Some (Inr owner2, self1, db2, r)"
    using accessViaCode_found[OF found2[unfolded c_def owner2_def[symmetric]] nonempty, of r self1]
      aa2 ag2
    by (simp add: Let_def c_def)
  show ?thesis
    using first second uid_owner1 uid_owner2 found2 shared2 records_len records_owner
      grants_len grants1 stored2
    by (auto simp: c_def ag_def owner2_def)
qed

theorem accessViaCode_twice_witness:
  "findOne_shareCode [owner_account, requester_account] (toUpperCase plain_table (js ''bafek''))
     = Some owner_account
   \<and> js ''bafek'' \<noteq> []
   \<and> accessingViaCode requester_account = [] \<and> sharedWith owner_account = []
   \<and> findById_user [owner_account, requester_account] (uid requester_account)
       = Some requester_account
   \<and> (\<exists>owner1 self1 db1 owner2.
         accessViaCode plain_table [owner_account, requester_account] zero_draws requester_account
           (js ''bafek'') = Some (Inr owner1, self1, db1, zero_draws)
       \<and> accessViaCode plain_table db1 zero_draws self1 (js ''bafek'')
           = Some (Inr owner2, self1, db1, zero_draws)
       \<and> length (filter (\<lambda>a. acc_code a = js ''BAFEK'') (accessingViaCode self1)) = 1
       \<and> filter (\<lambda>g. userId g = 2) (sharedWith owner2) = [\<lparr>userId = 2, accessLevel = View\<rparr>])"
proof -
  have up: "toUpperCase plain_table (js ''bafek'') = js ''BAFEK''"
    by (rule toUpperCase_ascii_upper)
  have h1: "findOne_shareCode [owner_account, requester_account] (toUpperCase plain_table (js ''bafek''))
     = Some owner_account"
    by (simp add: up findOne_shareCode_def owner_account_def)
  have h2: "js ''bafek'' \<noteq> []" by (simp add: js_def)
  have h3: "accessingViaCode requester_account = []" by (simp add: requester_account_def)
  have h4: "sharedWith owner_account = []" by (simp add: owner_account_def)
  have h5: "findById_user [owner_account, requester_account] (uid requester_account)
       = Some requester_account"
    by (simp add: findById_user_def owner_account_def requester_account_def)
  have u: "uid requester_account = 2" by (simp add: requester_account_def)
  show ?thesis
    using accessViaCode_twice [OF h1 h2 _ _ _ h5, of zero_draws] h1 h2 h3 h4 h5
    by (simp add: up u) blast
qed

text \<open>
  The grant does not always have the level \<open>view\<close>: an owner who has given the
  requester \<open>edit\<close> access before (\<open>shareWith(requester, 'edit')\<close>) keeps that grant
  through both redemptions.
\<close>
theorem accessViaCode_keeps_edit_grant:
  "accessViaCode plain_table [owner_with_edit_grant, requester_account] zero_draws requester_account
       (js ''bafek'')
     = Some (Inr owner_with_edit_grant, requester_redeemed,
             [owner_with_edit_grant, requester_redeemed], zero_draws)
   \<and> accessViaCode plain_table [owner_with_edit_grant, requester_redeemed] zero_draws requester_redeemed
       (js ''bafek'')
     = Some (Inr owner_with_edit_grant, requester_redeemed,
             [owner_with_edit_grant, requester_redeemed], zero_draws)
   \<and> filter (\<lambda>g. userId g = uid requester_redeemed) (sharedWith owner_with_edit_grant)
     = [\<lparr>userId = 2, accessLevel = Edit\<rparr>]"
  by (simp only: accessViaCode_def toUpperCase_ascii_upper)
     (simp add: shareWith_def findOne_shareCode_def falsy_str_def Let_def
        save_accessingViaCode_def owner_with_edit_grant_def requester_account_def
        requester_redeemed_def js_def)

end
